theory Spec2Isabelle
  imports Main
begin

section \<open>Python values\<close>

text \<open>
  A Python \<open>str\<close> is a sequence of Unicode code points; it is modelled as a list of
  natural numbers. \<open>lit\<close> turns an ASCII literal of the source into that form.
\<close>

type_synonym pystr = "nat list"

definition lit :: "string \<Rightarrow> pystr" where
  "lit s = map of_char s"

text \<open>
  A Python \<open>float\<close> is either a finite binary fraction \<open>m * 2 ^ e\<close> or one of the
  three non-finite values.
\<close>

datatype pyfloat = Finite int int | PosInf | NegInf | NaN

datatype error = OverflowError | ValueError

text \<open>
  The untyped values the scripts inspect (\<open>Any\<close> in the source). \<open>POther\<close> stands for
  a value of any type the helpers do not look into (bytes, tuple, set, an object).
  A dictionary keeps its items in insertion order.
\<close>

datatype pykey = KStr pystr | KInt int

datatype pyval =
    PNone
  | PBool bool
  | PInt int
  | PFloat pyfloat
  | PStr pystr
  | PList "pyval list"
  | PDict "(pykey \<times> pyval) list"
  | POther

text \<open>\<open>key in keys\<close> for a set of strings: a key that is not a string is never a member.\<close>

fun key_in :: "pykey \<Rightarrow> pystr set \<Rightarrow> bool" where
  "key_in (KStr s) keys = (s \<in> keys)"
| "key_in (KInt n) keys = False"

section \<open>tiktoklive\_bridge.py: value extraction\<close>

text \<open>
  \<open>int(x)\<close> for a float \<open>x\<close>: truncation towards zero; infinity raises
  OverflowError and NaN raises ValueError.
\<close>

fun float_to_int :: "pyfloat \<Rightarrow> error + int" where
  "float_to_int (Finite m e) =
     Inr (if 0 \<le> e then m * 2 ^ nat e else sgn m * (\<bar>m\<bar> div 2 ^ nat (- e)))"
| "float_to_int PosInf = Inl OverflowError"
| "float_to_int NegInf = Inl OverflowError"
| "float_to_int NaN = Inl ValueError"

text \<open>
  \<open>to_int(value, default)\<close>. The built-in \<open>float(str)\<close> is the parameter \<open>pf\<close>
  (\<open>None\<close> when it raises ValueError). Only the string branch sits inside
  \<open>try ... except Exception\<close>.
\<close>

fun to_int :: "(pystr \<Rightarrow> pyfloat option) \<Rightarrow> pyval \<Rightarrow> int \<Rightarrow> error + int" where
  "to_int pf (PBool b) d = Inr (if b then 1 else 0)"
| "to_int pf (PInt n) d = Inr n"
| "to_int pf (PFloat x) d = float_to_int x"
| "to_int pf (PStr s) d =
     (case pf s of
        None \<Rightarrow> Inr d
      | Some x \<Rightarrow> (case float_to_int x of Inl _ \<Rightarrow> Inr d | Inr n \<Rightarrow> Inr n))"
| "to_int pf v d = Inr d"

text \<open>
  \<open>find_max_int(data, keys)\<close>. The two \<open>for\<close> loops carry \<open>best\<close>; an exception
  of \<open>to_int\<close> or of a recursive call leaves the loop and the function. The
  interpreter's recursion limit is not part of the model: on a structure nested
  deeper than the limit allows, the source raises RecursionError where the model
  goes on.
\<close>

fun find_max_int :: "(pystr \<Rightarrow> pyfloat option) \<Rightarrow> pyval \<Rightarrow> pystr set \<Rightarrow> error + int"
  and find_max_int_items ::
    "(pystr \<Rightarrow> pyfloat option) \<Rightarrow> (pykey \<times> pyval) list \<Rightarrow> pystr set \<Rightarrow> int \<Rightarrow> error + int"
  and find_max_int_elems ::
    "(pystr \<Rightarrow> pyfloat option) \<Rightarrow> pyval list \<Rightarrow> pystr set \<Rightarrow> int \<Rightarrow> error + int"
where
  "find_max_int pf (PDict kvs) keys = find_max_int_items pf kvs keys 0"
| "find_max_int pf (PList xs) keys = find_max_int_elems pf xs keys 0"
| "find_max_int pf PNone keys = Inr 0"
| "find_max_int pf (PBool b) keys = Inr 0"
| "find_max_int pf (PInt n) keys = Inr 0"
| "find_max_int pf (PFloat x) keys = Inr 0"
| "find_max_int pf (PStr s) keys = Inr 0"
| "find_max_int pf POther keys = Inr 0"
| "find_max_int_items pf [] keys best = Inr best"
| "find_max_int_items pf ((k, v) # kvs) keys best =
     (case (if key_in k keys
            then (case to_int pf v 0 of Inl e \<Rightarrow> Inl e | Inr n \<Rightarrow> Inr (max best n))
            else Inr best) of
        Inl e \<Rightarrow> Inl e
      | Inr best1 \<Rightarrow>
          (case find_max_int pf v keys of
             Inl e \<Rightarrow> Inl e
           | Inr m \<Rightarrow> find_max_int_items pf kvs keys (max best1 m)))"
| "find_max_int_elems pf [] keys best = Inr best"
| "find_max_int_elems pf (x # xs) keys best =
     (case find_max_int pf x keys of
        Inl e \<Rightarrow> Inl e
      | Inr m \<Rightarrow> find_max_int_elems pf xs keys (max best m))"

text \<open>
  \<open>str.strip()\<close> removes leading and trailing white space, that is the code points
  for which \<open>str.isspace\<close> holds.
\<close>

definition is_space :: "nat \<Rightarrow> bool" where
  "is_space c =
     (c \<in> {9, 10, 11, 12, 13, 28, 29, 30, 31, 32, 133, 160, 5760, 8232, 8233, 8239, 8287, 12288}
      \<or> (8192 \<le> c \<and> c \<le> 8202))"

definition strip :: "pystr \<Rightarrow> pystr" where
  "strip s = rev (dropWhile is_space (rev (dropWhile is_space s)))"

text \<open>\<open>as_str(value)\<close>.\<close>

fun as_str :: "pyval \<Rightarrow> pystr option" where
  "as_str (PStr s) = (if strip s \<noteq> [] then Some (strip s) else None)"
| "as_str v = None"

text \<open>The truth value of an \<open>Optional[str]\<close>, as in \<open>if found:\<close>.\<close>

fun truthy_str :: "pystr option \<Rightarrow> bool" where
  "truthy_str None = False"
| "truthy_str (Some s) = (s \<noteq> [])"

text \<open>
  \<open>find_first_string(data, keys)\<close>. Nothing in its body can raise, so it returns
  the \<open>Optional[str]\<close> directly.
\<close>

fun find_first_string :: "pyval \<Rightarrow> pystr set \<Rightarrow> pystr option"
  and find_first_string_items :: "(pykey \<times> pyval) list \<Rightarrow> pystr set \<Rightarrow> pystr option"
  and find_first_string_elems :: "pyval list \<Rightarrow> pystr set \<Rightarrow> pystr option"
where
  "find_first_string (PDict kvs) keys = find_first_string_items kvs keys"
| "find_first_string (PList xs) keys = find_first_string_elems xs keys"
| "find_first_string PNone keys = None"
| "find_first_string (PBool b) keys = None"
| "find_first_string (PInt n) keys = None"
| "find_first_string (PFloat x) keys = None"
| "find_first_string (PStr s) keys = None"
| "find_first_string POther keys = None"
| "find_first_string_items [] keys = None"
| "find_first_string_items ((k, v) # kvs) keys =
     (if key_in k keys \<and> as_str v \<noteq> None then as_str v
      else (let found = find_first_string v keys in
            if truthy_str found then found else find_first_string_items kvs keys))"
| "find_first_string_elems [] keys = None"
| "find_first_string_elems (x # xs) keys =
     (let found = find_first_string x keys in
      if truthy_str found then found else find_first_string_elems xs keys)"

text \<open>\<open>parse_current_viewers_from_room_info\<close> and \<open>parse_total_enters_from_room_info\<close>.\<close>

definition viewer_keys :: "pystr set" where
  "viewer_keys = {lit ''user_count'', lit ''watch_user_count'', lit ''viewer_count'',
                  lit ''viewerCount'', lit ''room_user_count''}"

definition enter_keys :: "pystr set" where
  "enter_keys = {lit ''total_user'', lit ''totalUser'', lit ''enter_count'',
                 lit ''enterCount'', lit ''total_enter_count''}"

definition like_keys :: "pystr set" where
  "like_keys = {lit ''like_count'', lit ''likeCount'', lit ''m_popularity'',
                lit ''total_like'', lit ''likes''}"

definition title_keys :: "pystr set" where
  "title_keys = {lit ''title'', lit ''room_title'', lit ''live_title''}"

definition parse_current_viewers_from_room_info ::
  "(pystr \<Rightarrow> pyfloat option) \<Rightarrow> pyval \<Rightarrow> error + int" where
  "parse_current_viewers_from_room_info pf room_info =
     (case find_max_int pf room_info viewer_keys of Inl e \<Rightarrow> Inl e | Inr n \<Rightarrow> Inr (max 0 n))"

definition parse_total_enters_from_room_info ::
  "(pystr \<Rightarrow> pyfloat option) \<Rightarrow> pyval \<Rightarrow> error + int" where
  "parse_total_enters_from_room_info pf room_info =
     (case find_max_int pf room_info enter_keys of Inl e \<Rightarrow> Inl e | Inr n \<Rightarrow> Inr (max 0 n))"

subsection \<open>What the key scan is specified to compute\<close>

text \<open>
  Every value bound to a key in \<open>keys\<close> at any nesting depth of dictionaries and
  lists, in the order the items appear.
\<close>

fun bound_values :: "pystr set \<Rightarrow> pyval \<Rightarrow> pyval list"
  and bound_values_items :: "pystr set \<Rightarrow> (pykey \<times> pyval) list \<Rightarrow> pyval list"
  and bound_values_elems :: "pystr set \<Rightarrow> pyval list \<Rightarrow> pyval list"
where
  "bound_values keys (PDict kvs) = bound_values_items keys kvs"
| "bound_values keys (PList xs) = bound_values_elems keys xs"
| "bound_values keys PNone = []"
| "bound_values keys (PBool b) = []"
| "bound_values keys (PInt n) = []"
| "bound_values keys (PFloat x) = []"
| "bound_values keys (PStr s) = []"
| "bound_values keys POther = []"
| "bound_values_items keys [] = []"
| "bound_values_items keys ((k, v) # kvs) =
     (if key_in k keys then [v] else []) @ bound_values keys v @ bound_values_items keys kvs"
| "bound_values_elems keys [] = []"
| "bound_values_elems keys (x # xs) = bound_values keys x @ bound_values_elems keys xs"

text \<open>
  The same, said without an order: \<open>v\<close> is bound to a key in \<open>keys\<close> by an item of
  the dictionary \<open>data\<close>, or it is so bound somewhere inside the value of an item or
  inside an element of the list \<open>data\<close>.
\<close>

inductive bound_in :: "pystr set \<Rightarrow> pyval \<Rightarrow> pyval \<Rightarrow> bool" for keys :: "pystr set" where
  item: "(k, v) \<in> set kvs \<Longrightarrow> key_in k keys \<Longrightarrow> bound_in keys (PDict kvs) v"
| under_item: "(k, d) \<in> set kvs \<Longrightarrow> bound_in keys d v \<Longrightarrow> bound_in keys (PDict kvs) v"
| under_elem: "d \<in> set xs \<Longrightarrow> bound_in keys d v \<Longrightarrow> bound_in keys (PList xs) v"

text \<open>
  The running maximum of \<open>to_int(v, 0)\<close> over a list of values, from \<open>best\<close>; the first
  exception of \<open>to_int\<close> ends it.
\<close>

fun max_to_int :: "(pystr \<Rightarrow> pyfloat option) \<Rightarrow> pyval list \<Rightarrow> int \<Rightarrow> error + int" where
  "max_to_int pf [] best = Inr best"
| "max_to_int pf (v # vs) best =
     (case to_int pf v 0 of Inl e \<Rightarrow> Inl e | Inr n \<Rightarrow> max_to_int pf vs (max best n))"

section \<open>tiktoklive\_bridge.py: JSON lines\<close>

text \<open>
  The values of the dictionaries the bridge builds and prints: \<open>None\<close>, booleans,
  integers, strings, lists and dictionaries with string keys (in insertion order).
\<close>

datatype jval =
    JNull
  | JBool bool
  | JInt int
  | JStr pystr
  | JList "jval list"
  | JObj "(pystr \<times> jval) list"

type_synonym pydict = "(pystr \<times> jval) list"

text \<open>An \<open>Optional[str]\<close> as a dictionary value.\<close>

fun opt_str :: "pystr option \<Rightarrow> jval" where
  "opt_str None = JNull"
| "opt_str (Some s) = JStr s"

subsection \<open>The standard library's \<open>json.dumps(payload, ensure_ascii=True)\<close>\<close>

text \<open>\<open>str(n)\<close> for an integer: decimal digits, with a minus sign when negative.\<close>

fun dec_digits :: "nat \<Rightarrow> pystr" where
  "dec_digits n = (if n < 10 then [48 + n] else dec_digits (n div 10) @ [48 + n mod 10])"

declare dec_digits.simps [simp del]

definition int_repr :: "int \<Rightarrow> pystr" where
  "int_repr n = (if n < 0 then 45 # dec_digits (nat (- n)) else dec_digits (nat n))"









subsection \<open>Standard output\<close>





section \<open>tiktoklive\_bridge.py: the capture state\<close>

record LiveCaptureState =
  username :: pystr
  warnings :: "pystr list"
  room_id :: "pystr option"
  title :: "pystr option"
  status_code :: int
  is_live :: bool
  current_viewers :: int
  current_likes :: int
  current_enters :: int
  samples :: "pydict list"
  comments :: "pydict list"
  gifts :: "pydict list"

text \<open>\<open>LiveCaptureState(username)\<close>.\<close>

definition init_state :: "pystr \<Rightarrow> LiveCaptureState" where
  "init_state name =
     \<lparr>username = name, warnings = [], room_id = None, title = None, status_code = 0,
      is_live = False, current_viewers = 0, current_likes = 0, current_enters = 0,
      samples = [], comments = [], gifts = []\<rparr>"

text \<open>
  \<open>snapshot()\<close> and \<open>add_sample()\<close>; \<open>now\<close> is the reading of \<open>now_iso()\<close>. The
  three counters are integers already, so \<open>int(...)\<close> returns them unchanged.
\<close>

definition snapshot :: "pystr \<Rightarrow> LiveCaptureState \<Rightarrow> pydict" where
  "snapshot now st =
     [(lit ''username'', JStr (username st)),
      (lit ''isLive'', JBool (is_live st)),
      (lit ''statusCode'', JInt (status_code st)),
      (lit ''viewerCount'', JInt (max 0 (current_viewers st))),
      (lit ''likeCount'', JInt (max 0 (current_likes st))),
      (lit ''enterCount'', JInt (max 0 (current_enters st))),
      (lit ''roomId'', opt_str (room_id st)),
      (lit ''title'', opt_str (title st)),
      (lit ''fetchedAt'', JStr now)]"

definition add_sample :: "pystr \<Rightarrow> LiveCaptureState \<Rightarrow> pydict \<times> LiveCaptureState" where
  "add_sample now st =
     (let sample =
        [(lit ''capturedAt'', JStr now),
         (lit ''viewerCount'', JInt (max 0 (current_viewers st))),
         (lit ''likeCount'', JInt (max 0 (current_likes st))),
         (lit ''enterCount'', JInt (max 0 (current_enters st)))]
      in (sample, st\<lparr>samples := samples st @ [sample]\<rparr>))"

text \<open>\<open>{"type": kind, **row}\<close>; no dictionary the bridge spreads has a \<open>type\<close> key.\<close>

definition typed :: "string \<Rightarrow> pydict \<Rightarrow> pydict" where
  "typed kind row = (lit ''type'', JStr (lit kind)) # row"

subsection \<open>Events and their handlers\<close>

text \<open>
  An event carries the attribute values its handler reads. Where the handler first
  passes an attribute through \<open>bool(...)\<close> or \<open>str(...)\<close>, the event carries that
  result; an attribute given to \<open>to_int\<close> or \<open>as_str\<close> is carried untyped, with the
  default of \<open>getattr\<close> in place when it is missing.
\<close>

record gift_attrs =
  streakable :: bool
  streaking :: bool
  gift_diamond_count :: pyval
  info_diamond_count :: pyval
  event_repeat_count :: pyval
  event_count :: pyval
  gift_count :: pyval
  gift_user_unique_id :: pyval
  gift_user_nickname :: pyval
  gift_name :: pyval

datatype event =
    ConnectEvent pystr
  | DisconnectEvent
  | RoomUserSeqEvent pyval pyval pyval
  | LikeEvent pyval
  | CommentEvent pyval pyval pyval
  | GiftEvent gift_attrs

text \<open>The keyword arguments of \<open>bootstrap_client\<close> that the handlers close over.\<close>

record handler_config =
  emit_events :: bool
  collect_chat :: bool
  max_comments :: int
  max_gifts :: int

text \<open>
  A handler returns the new state and the dictionaries it passed to \<open>emit_line\<close>, or
  the exception it raised. Every handler calls \<open>to_int\<close> before its first assignment,
  so a handler that raises has left the state as it was.
\<close>

type_synonym handled = "error + (LiveCaptureState \<times> pydict list)"

definition on_connect ::
  "handler_config \<Rightarrow> pystr \<Rightarrow> pystr \<Rightarrow> LiveCaptureState \<Rightarrow> handled" where
  "on_connect cfg now room_id_text st =
     (let st1 = st\<lparr>is_live := True\<rparr>;
          st2 = st1\<lparr>status_code := 1\<rparr>;
          st3 = st2\<lparr>room_id := (if strip room_id_text \<noteq> [] then Some (strip room_id_text)
                                  else room_id st2)\<rparr>
      in Inr (st3, if emit_events cfg then [typed ''meta'' (snapshot now st3)] else []))"

definition on_disconnect :: "LiveCaptureState \<Rightarrow> handled" where
  "on_disconnect st = Inr (if status_code st = 1 then st\<lparr>status_code := 2\<rparr> else st, [])"

definition on_room_user_seq ::
  "(pystr \<Rightarrow> pyfloat option) \<Rightarrow> pyval \<Rightarrow> pyval \<Rightarrow> pyval \<Rightarrow> LiveCaptureState \<Rightarrow> handled" where
  "on_room_user_seq pf m_total total_user m_popularity st =
     (case to_int pf m_total 0 of Inl e \<Rightarrow> Inl e | Inr viewers \<Rightarrow>
     (case to_int pf total_user 0 of Inl e \<Rightarrow> Inl e | Inr enters \<Rightarrow>
     (case to_int pf m_popularity 0 of Inl e \<Rightarrow> Inl e | Inr likes \<Rightarrow>
        (let st1 = (if viewers > 0 then st\<lparr>current_viewers := viewers\<rparr> else st);
             st2 = (if enters > 0
                    then st1\<lparr>current_enters := max (current_enters st1) enters\<rparr> else st1);
             st3 = (if likes > 0
                    then st2\<lparr>current_likes := max (current_likes st2) likes\<rparr> else st2)
         in Inr (st3, [])))))"

definition on_like :: "(pystr \<Rightarrow> pyfloat option) \<Rightarrow> pyval \<Rightarrow> LiveCaptureState \<Rightarrow> handled" where
  "on_like pf total_attr st =
     (case to_int pf total_attr 0 of Inl e \<Rightarrow> Inl e | Inr total_likes \<Rightarrow>
        Inr (if total_likes > 0
             then st\<lparr>current_likes := max (current_likes st) total_likes\<rparr> else st, []))"

definition on_comment ::
  "handler_config \<Rightarrow> pystr \<Rightarrow> pyval \<Rightarrow> pyval \<Rightarrow> pyval \<Rightarrow> LiveCaptureState \<Rightarrow> handled" where
  "on_comment cfg now unique_id nickname comment st =
     (if \<not> collect_chat cfg \<or> max_comments cfg = 0
         \<or> int (length (comments st)) \<ge> max_comments cfg
      then Inr (st, [])
      else (let row =
              [(lit ''createdAt'', JStr now),
               (lit ''userUniqueId'', opt_str (as_str unique_id)),
               (lit ''nickname'', opt_str (as_str nickname)),
               (lit ''comment'',
                JStr (case as_str comment of None \<Rightarrow> [] | Some c \<Rightarrow> c))]
            in Inr (st\<lparr>comments := comments st @ [row]\<rparr>,
                    if emit_events cfg then [typed ''comment'' row] else [])))"

definition on_gift ::
  "handler_config \<Rightarrow> (pystr \<Rightarrow> pyfloat option) \<Rightarrow> pystr \<Rightarrow> gift_attrs \<Rightarrow> LiveCaptureState
     \<Rightarrow> handled" where
  "on_gift cfg pf now g st =
     (if \<not> collect_chat cfg \<or> max_gifts cfg = 0 \<or> int (length (gifts st)) \<ge> max_gifts cfg
      then Inr (st, [])
      else if streakable g \<and> streaking g then Inr (st, [])
      else
       (case to_int pf (gift_diamond_count g) 0 of Inl e \<Rightarrow> Inl e | Inr d1 \<Rightarrow>
       (case to_int pf (info_diamond_count g) 0 of Inl e \<Rightarrow> Inl e | Inr d2 \<Rightarrow>
       (case to_int pf (event_repeat_count g) 0 of Inl e \<Rightarrow> Inl e | Inr r1 \<Rightarrow>
       (case to_int pf (event_count g) 0 of Inl e \<Rightarrow> Inl e | Inr r2 \<Rightarrow>
       (case to_int pf (gift_count g) 0 of Inl e \<Rightarrow> Inl e | Inr r3 \<Rightarrow>
          (let diamond_count = max 0 (max d1 d2);
               repeat_count = max 1 (max r1 (max r2 r3));
               row =
                 [(lit ''createdAt'', JStr now),
                  (lit ''userUniqueId'', opt_str (as_str (gift_user_unique_id g))),
                  (lit ''nickname'', opt_str (as_str (gift_user_nickname g))),
                  (lit ''giftName'', opt_str (as_str (gift_name g))),
                  (lit ''diamondCount'', JInt diamond_count),
                  (lit ''repeatCount'', JInt repeat_count)]
           in Inr (st\<lparr>gifts := gifts st @ [row]\<rparr>,
                   if emit_events cfg then [typed ''gift'' row] else []))))))))"

fun handle ::
  "handler_config \<Rightarrow> (pystr \<Rightarrow> pyfloat option) \<Rightarrow> pystr \<Rightarrow> event \<Rightarrow> LiveCaptureState \<Rightarrow> handled"
where
  "handle cfg pf now (ConnectEvent room_id_text) st = on_connect cfg now room_id_text st"
| "handle cfg pf now DisconnectEvent st = on_disconnect st"
| "handle cfg pf now (RoomUserSeqEvent m_total total_user m_popularity) st =
     on_room_user_seq pf m_total total_user m_popularity st"
| "handle cfg pf now (LikeEvent total_attr) st = on_like pf total_attr st"
| "handle cfg pf now (CommentEvent unique_id nickname comment) st =
     on_comment cfg now unique_id nickname comment st"
| "handle cfg pf now (GiftEvent g) st = on_gift cfg pf now g st"

text \<open>The event is a \<open>RoomUserSeqEvent\<close> whose \<open>m_total\<close> reads as \<open>n\<close> viewers.\<close>

fun reports_viewers :: "(pystr \<Rightarrow> pyfloat option) \<Rightarrow> event \<Rightarrow> int \<Rightarrow> bool" where
  "reports_viewers pf (RoomUserSeqEvent m_total total_user m_popularity) n =
     (to_int pf m_total 0 = Inr n)"
| "reports_viewers pf ev n = False"

subsection \<open>The body of \<open>bootstrap_client\<close> around the handlers\<close>

text \<open>The live check failed: \<open>status_code = 4\<close>, \<open>is_live = False\<close>, return False.\<close>

definition precheck_not_live :: "LiveCaptureState \<Rightarrow> LiveCaptureState" where
  "precheck_not_live st = (st\<lparr>status_code := 4\<rparr>)\<lparr>is_live := False\<rparr>"

text \<open>Before \<open>client.start\<close>: \<open>is_live = True\<close>, \<open>status_code = 1\<close>.\<close>

definition mark_started :: "LiveCaptureState \<Rightarrow> LiveCaptureState" where
  "mark_started st = (st\<lparr>is_live := True\<rparr>)\<lparr>status_code := 1\<rparr>"

text \<open>
  The assignments from \<open>client.room_info\<close> after the start. \<open>client_room_id\<close> is the
  value of \<open>str(client.room_id) if client.room_id else None\<close>. The assignments run in
  order, so an exception of a scan leaves the earlier ones done: the result is the
  state reached and the exception, if any.
\<close>

definition apply_room_info ::
  "(pystr \<Rightarrow> pyfloat option) \<Rightarrow> pyval \<Rightarrow> pystr option \<Rightarrow> LiveCaptureState
     \<Rightarrow> LiveCaptureState \<times> error option" where
  "apply_room_info pf room_info client_room_id st =
     (let st1 = st\<lparr>room_id := (if truthy_str (room_id st) then room_id st else client_room_id)\<rparr>;
          st2 = st1\<lparr>title := find_first_string room_info title_keys\<rparr>
      in (case parse_current_viewers_from_room_info pf room_info of
            Inl e \<Rightarrow> (st2, Some e)
          | Inr viewers \<Rightarrow>
              (let st3 = st2\<lparr>current_viewers := max (current_viewers st2) viewers\<rparr>
               in (case find_max_int pf room_info like_keys of
                     Inl e \<Rightarrow> (st3, Some e)
                   | Inr likes \<Rightarrow>
                       (let st4 = st3\<lparr>current_likes := max (current_likes st3) likes\<rparr>
                        in (case parse_total_enters_from_room_info pf room_info of
                              Inl e \<Rightarrow> (st4, Some e)
                            | Inr enters \<Rightarrow>
                                (st4\<lparr>current_enters := max (current_enters st4) enters\<rparr>,
                                 None)))))))"

subsection \<open>Runs of the bridge\<close>

text \<open>
  What happens to the capture state, one step at a time: an event reaches its
  handler, the live check fails, the client is started, the room information is
  read, a warning is appended (\<open>apply_optional_session\<close>, \<open>safe_disconnect\<close>), a
  sample is taken, or \<open>capture_live_stream\<close> emits a \<open>meta\<close> or an \<open>end\<close> record.
  Each step has its own reading of the clock. A handler that raises leaves the
  state as it was; the room information leaves it as far as it got.
\<close>

datatype step =
    Handle event
  | PrecheckNotLive
  | MarkStarted
  | ApplyRoomInfo pyval "pystr option"
  | AppendWarning pystr
  | AddSample
  | EmitMeta
  | EmitEnd bool bool "pystr option"

fun step_state ::
  "handler_config \<Rightarrow> (pystr \<Rightarrow> pyfloat option) \<Rightarrow> pystr \<times> step \<Rightarrow> LiveCaptureState
     \<Rightarrow> LiveCaptureState" where
  "step_state cfg pf (now, Handle ev) st =
     (case handle cfg pf now ev st of Inl e \<Rightarrow> st | Inr (st', out) \<Rightarrow> st')"
| "step_state cfg pf (now, PrecheckNotLive) st = precheck_not_live st"
| "step_state cfg pf (now, MarkStarted) st = mark_started st"
| "step_state cfg pf (now, ApplyRoomInfo room_info client_room_id) st =
     fst (apply_room_info pf room_info client_room_id st)"
| "step_state cfg pf (now, AppendWarning text) st = st\<lparr>warnings := warnings st @ [text]\<rparr>"
| "step_state cfg pf (now, AddSample) st = snd (add_sample now st)"
| "step_state cfg pf (now, EmitMeta) st = st"
| "step_state cfg pf (now, EmitEnd ok live err) st = st"

fun run ::
  "handler_config \<Rightarrow> (pystr \<Rightarrow> pyfloat option) \<Rightarrow> (pystr \<times> step) list \<Rightarrow> LiveCaptureState
     \<Rightarrow> LiveCaptureState" where
  "run cfg pf [] st = st"
| "run cfg pf (s # ss) st = run cfg pf ss (step_state cfg pf s st)"






subsection \<open>The records printed outside stream mode\<close>





subsection \<open>Shapes of a record\<close>








text \<open>The three counters of a snapshot or sample, when it has them as integers.\<close>

definition counts :: "pydict \<Rightarrow> (int \<times> int \<times> int) option" where
  "counts d =
     (case (map_of d (lit ''viewerCount''), map_of d (lit ''likeCount''),
            map_of d (lit ''enterCount'')) of
        (Some (JInt v), Some (JInt l), Some (JInt e)) \<Rightarrow> Some (v, l, e)
      | _ \<Rightarrow> None)"

definition nonneg_counts :: "pydict \<Rightarrow> bool" where
  "nonneg_counts d =
     (case counts d of Some (v, l, e) \<Rightarrow> 0 \<le> v \<and> 0 \<le> l \<and> 0 \<le> e | None \<Rightarrow> False)"

section \<open>Pianothon.py\<close>

text \<open>
  The two values created by the manager and handed to both processes:
  \<open>totalcoins = manager.Value('i', 0)\<close> and \<open>thankstr = manager.Value("c", "")\<close>. A
  manager value holds a Python object, so the counter is an unbounded integer.
\<close>

record shared_values =
  totalcoins :: int
  thankstr :: pystr

definition initial_shared :: shared_values where
  "initial_shared = \<lparr>totalcoins = 0, thankstr = []\<rparr>"

subsection \<open>The event-handling process\<close>

text \<open>
  The attributes \<open>on_gift\<close> reads: \<open>event.gift.streakable\<close>, \<open>event.gift.streaking\<close>,
  \<open>int(event.gift.info.diamond_count)\<close>, \<open>int(event.gift.count)\<close> and
  \<open>event.user.nickname\<close>.
\<close>

record gift =
  g_streakable :: bool
  g_streaking :: bool
  g_diamond_count :: int
  g_count :: int
  g_nickname :: pystr

definition thankvalue :: int where
  "thankvalue = 1"

text \<open>
  The handler works on the shared values and the lines it has printed:
  \<open>print(text)\<close>, \<open>giftreceived(coins)\<close>, the two statements that set and print the
  thank-you text, and \<open>on_gift(event)\<close>.
\<close>

type_synonym handler_world = "shared_values \<times> pystr list"

definition print_line :: "pystr \<Rightarrow> handler_world \<Rightarrow> handler_world" where
  "print_line text w = (fst w, snd w @ [text])"

definition giftreceived :: "int \<Rightarrow> handler_world \<Rightarrow> handler_world" where
  "giftreceived coins w =
     (let sh = (fst w)\<lparr>totalcoins := totalcoins (fst w) + coins\<rparr>
      in print_line (lit ''total coins: '' @ int_repr (totalcoins sh)) (sh, snd w))"

definition thank :: "pystr \<Rightarrow> handler_world \<Rightarrow> handler_world" where
  "thank nickname w =
     (let sh = (fst w)\<lparr>thankstr := lit ''Thanks to '' @ nickname\<rparr>
      in print_line (thankstr sh) (sh, snd w))"

definition pianothon_on_gift :: "gift \<Rightarrow> handler_world \<Rightarrow> handler_world" where
  "pianothon_on_gift g w =
     (if g_streakable g \<and> \<not> g_streaking g
      then (let w1 = print_line (int_repr (g_diamond_count g * g_count g)) w;
                w2 = giftreceived (g_diamond_count g * g_count g) w1
            in if g_diamond_count g * g_count g \<ge> thankvalue
               then thank (g_nickname g) w2 else w2)
      else if \<not> g_streakable g
      then (let w1 = print_line (int_repr (g_diamond_count g)) w;
                w2 = giftreceived (g_diamond_count g) w1
            in if g_diamond_count g \<ge> thankvalue
               then thank (g_nickname g) w2 else w2)
      else w)"

fun pianothon_gifts :: "gift list \<Rightarrow> handler_world \<Rightarrow> handler_world" where
  "pianothon_gifts [] w = w"
| "pianothon_gifts (g # gs) w = pianothon_gifts gs (pianothon_on_gift g w)"

text \<open>What one gift event is worth to the total.\<close>

definition gift_coins :: "gift \<Rightarrow> int" where
  "gift_coins g =
     (if g_streakable g then (if g_streaking g then 0 else g_diamond_count g * g_count g)
      else g_diamond_count g)"

subsection \<open>The rendering process\<close>

text \<open>
  One pass of the \<open>while running\<close> loop of \<open>mainloop\<close>, as far as it touches the two
  shared values: the thank-you list and text, the choice of \<open>coinsthres\<close> with its
  prints, and the texts drawn from the counter. The pass works on one reading of
  the shared values. The timer and the pie angle, which are floats computed from
  the clock and from \<open>totalcoins.value / coinsthres\<close>, are left out.
\<close>

record render_state =
  thanklist :: "pystr list"
  activethank :: pystr
  coinsthres :: int

definition basecoinsthres :: int where
  "basecoinsthres = 15"

definition incr :: int where
  "incr = 5"


record frame =
  coins_text :: pystr
  total_text :: pystr
  info_text :: pystr
  thank_text :: pystr

definition choose_coinsthres :: "int \<Rightarrow> int \<Rightarrow> int \<times> pystr list" where
  "choose_coinsthres coins previous =
     (if coins < 15 * basecoinsthres then (basecoinsthres, [lit ''1 QUARTER''])
      else if coins < 15 * basecoinsthres + incr * 1
        then (basecoinsthres + incr * 1, [lit ''2 QUARTER''])
      else if coins < 15 * basecoinsthres + incr * 2
        then (basecoinsthres + incr * 2, [lit ''3 QUARTER''])
      else if coins < 15 * basecoinsthres + incr * 3 then (basecoinsthres + incr * 3, [])
      else if coins < 15 * basecoinsthres + incr * 4 then (basecoinsthres + incr * 4, [])
      else if coins < 15 * basecoinsthres + incr * 5 then (basecoinsthres + incr * 5, [])
      else if coins < 15 * basecoinsthres + incr * 6 then (basecoinsthres + incr * 6, [])
      else if coins < 15 * basecoinsthres + incr * 7 then (basecoinsthres + incr * 7, [])
      else if coins < 15 * basecoinsthres + incr * 8 then (basecoinsthres + incr * 8, [])
      else (previous, []))"

definition mainloop_pass ::
  "nat \<Rightarrow> shared_values \<Rightarrow> render_state \<Rightarrow> shared_values \<times> render_state \<times> pystr list \<times> frame"
where
  "mainloop_pass millis sh r =
     (let r1 = (if thankstr sh \<notin> set (thanklist r)
                then r\<lparr>thanklist := thanklist r @ [thankstr sh]\<rparr> else r);
          r2 = (if millis mod 4000 < 40 then r1\<lparr>activethank := thankstr sh\<rparr> else r1);
          (thres, printed) = choose_coinsthres (totalcoins sh) (coinsthres r2);
          r3 = r2\<lparr>coinsthres := thres\<rparr>;
          fr = \<lparr>coins_text = int_repr (totalcoins sh mod thres) @ lit ''/'' @ int_repr thres
                              @ lit '' Coins'',
                total_text = int_repr (totalcoins sh),
                info_text = lit ''For every '' @ int_repr thres @ lit '' coins'',
                thank_text = activethank r3\<rparr>
      in (sh, r3, printed, fr))"

subsection \<open>The two processes side by side\<close>













section \<open>Sample inputs\<close>

text \<open>A \<open>float(str)\<close> that reads the one string \<open>"12.5"\<close>, as 25 * 2 ^ -1.\<close>

definition sample_float :: "pystr \<Rightarrow> pyfloat option" where
  "sample_float s = (if s = lit ''12.5'' then Some (Finite 25 (- 1)) else None)"

text \<open>
  \<^verbatim>\<open>{"viewer_count": "12.5", "data": [{"user_count": 40, "owner_count": 99}]}\<close>
\<close>

definition sample_room_info :: pyval where
  "sample_room_info =
     PDict [(KStr (lit ''viewer_count''), PStr (lit ''12.5'')),
            (KStr (lit ''data''),
             PList [PDict [(KStr (lit ''user_count''), PInt 40),
                           (KStr (lit ''owner_count''), PInt 99)]])]"

text \<open>\<^verbatim>\<open>{"viewer_count": float("inf")}\<close>, as \<open>json.loads('{"viewer_count": 1e999}')\<close> gives it.\<close>

definition overflowing_room_info :: pyval where
  "overflowing_room_info = PDict [(KStr (lit ''viewer_count''), PFloat PosInf)]"

text \<open>
  \<^verbatim>\<open>{"user_count": 40, "viewer_count": float("nan")}\<close>, as
  \<open>json.loads('{"user_count": 40, "viewer_count": NaN}')\<close> gives it, and the same
  without its second item.
\<close>

definition nan_room_info :: pyval where
  "nan_room_info =
     PDict [(KStr (lit ''user_count''), PInt 40), (KStr (lit ''viewer_count''), PFloat NaN)]"

definition counted_room_info :: pyval where
  "counted_room_info = PDict [(KStr (lit ''user_count''), PInt 40)]"

text \<open>A stream with chat collection, and a short run with zero and negative readings.\<close>

definition sample_config :: handler_config where
  "sample_config = \<lparr>emit_events = True, collect_chat = True, max_comments = 5, max_gifts = 5\<rparr>"

definition quiet_event :: event where
  "quiet_event = RoomUserSeqEvent (PInt 0) (PInt (- 4)) (PInt 3)"

definition sample_steps :: "(pystr \<times> step) list" where
  "sample_steps =
     [(lit ''t0'', MarkStarted),
      (lit ''t1'', Handle (RoomUserSeqEvent (PInt 7) (PInt 30) (PInt 12))),
      (lit ''t2'', Handle quiet_event),
      (lit ''t3'', Handle (LikeEvent (PInt (- 9)))),
      (lit ''t4'', AddSample)]"

text \<open>A state whose counters are negative, as no run from the initial state gives.\<close>

definition negative_state :: LiveCaptureState where
  "negative_state =
     (init_state (lit ''bob''))\<lparr>current_viewers := - 5, current_likes := - 1,
                                current_enters := - 2\<rparr>"



text \<open>Gifts: a finished streak of two, a gift of the same streak in progress, a single gift.\<close>

definition finished_streak :: gift where
  "finished_streak =
     \<lparr>g_streakable = True, g_streaking = False, g_diamond_count = 5, g_count = 2,
      g_nickname = lit ''Ann''\<rparr>"

definition running_streak :: gift where
  "running_streak = finished_streak\<lparr>g_streaking := True\<rparr>"

definition single_gift :: gift where
  "single_gift =
     \<lparr>g_streakable = False, g_streaking = False, g_diamond_count = 7, g_count = 3,
      g_nickname = lit ''Bo''\<rparr>"


section \<open>Properties of the value extraction\<close>

subsection \<open>The running maximum\<close>

lemma max_to_int_append:
  "max_to_int pf (us @ vs) b =
     (case max_to_int pf us b of Inl e \<Rightarrow> Inl e | Inr m \<Rightarrow> max_to_int pf vs m)"
  by (induction us arbitrary: b) (auto split: sum.splits)

lemma max_to_int_shift:
  "0 \<le> b \<Longrightarrow> max_to_int pf vs b =
     (case max_to_int pf vs 0 of Inl e \<Rightarrow> Inl e | Inr m \<Rightarrow> Inr (max b m))"
proof (induction vs arbitrary: b)
  case Nil
  then show ?case by simp
next
  case (Cons v vs)
  show ?case
  proof (cases "to_int pf v 0")
    case (Inl e)
    then show ?thesis by simp
  next
    case (Inr n)
    have a: "max_to_int pf vs (max b n) =
        (case max_to_int pf vs 0 of Inl e \<Rightarrow> Inl e | Inr m \<Rightarrow> Inr (max (max b n) m))"
      using Cons.IH [of "max b n"] Cons.prems by simp
    have b: "max_to_int pf vs (max 0 n) =
        (case max_to_int pf vs 0 of Inl e \<Rightarrow> Inl e | Inr m \<Rightarrow> Inr (max (max 0 n) m))"
      using Cons.IH [of "max 0 n"] by simp
    show ?thesis using Inr a b Cons.prems by (auto split: sum.splits)
  qed
qed

lemma max_to_int_Max:
  "map (\<lambda>v. to_int pf v 0) vs = map Inr ns \<Longrightarrow>
   max_to_int pf vs b = Inr (Max (insert b (set ns)))"
proof (induction vs arbitrary: ns b)
  case Nil
  then show ?case by simp
next
  case (Cons v vs)
  then obtain n ns' where ns: "ns = n # ns'" "to_int pf v 0 = Inr n"
    "map (\<lambda>v. to_int pf v 0) vs = map Inr ns'"
    by (cases ns) auto
  have "max_to_int pf vs (max b n) = Inr (Max (insert (max b n) (set ns')))"
    using Cons.IH [OF ns(3)] .
  moreover have "Max (insert (max b n) (set ns')) = Max (insert b (set (n # ns')))"
    by (cases "ns' = []") (simp_all add: max.assoc)
  ultimately show ?case using ns by simp
qed

lemma max_to_int_raises:
  "(\<exists>e. max_to_int pf vs b = Inl e) \<longleftrightarrow> (\<exists>v\<in>set vs. \<exists>e. to_int pf v 0 = Inl e)"
  by (induction vs arbitrary: b) (auto split: sum.splits)

subsection \<open>The scan is the running maximum over the bound values\<close>

lemma find_max_int_scan:
  "find_max_int pf data keys = max_to_int pf (bound_values keys data) 0"
  "0 \<le> best \<Longrightarrow>
     find_max_int_items pf kvs keys best = max_to_int pf (bound_values_items keys kvs) best"
  "0 \<le> best \<Longrightarrow>
     find_max_int_elems pf xs keys best = max_to_int pf (bound_values_elems keys xs) best"
proof (induction pf data keys and pf kvs keys best and pf xs keys best
    rule: find_max_int_find_max_int_items_find_max_int_elems.induct)
  case (10 pf k v kvs keys best)
  show ?case
  proof (cases "key_in k keys")
    case True
    show ?thesis
    proof (cases "to_int pf v 0")
      case (Inl e)
      with True show ?thesis by simp
    next
      case (Inr n)
      let ?b1 = "max best n"
      have b1: "0 \<le> ?b1" using "10.prems" by simp
      have sub: "find_max_int pf v keys = max_to_int pf (bound_values keys v) 0"
        using "10.IH"(1) True Inr by simp
      show ?thesis
      proof (cases "max_to_int pf (bound_values keys v) 0")
        case (Inl e)
        with True Inr sub b1 show ?thesis
          by (simp add: max_to_int_append max_to_int_shift [of ?b1])
      next
        case m: (Inr m)
        have "0 \<le> max ?b1 m" using b1 by simp
        then have "find_max_int_items pf kvs keys (max ?b1 m) =
            max_to_int pf (bound_values_items keys kvs) (max ?b1 m)"
          using "10.IH"(2) True Inr sub m by simp
        with True Inr sub b1 m show ?thesis
          by (simp add: max_to_int_append max_to_int_shift [of ?b1 pf "bound_values keys v"])
      qed
    qed
  next
    case False
    have sub: "find_max_int pf v keys = max_to_int pf (bound_values keys v) 0"
      using "10.IH"(1) False by simp
    show ?thesis
    proof (cases "max_to_int pf (bound_values keys v) 0")
      case (Inl e)
      with False sub "10.prems" show ?thesis
        by (simp add: max_to_int_append max_to_int_shift [of best])
    next
      case m: (Inr m)
      have "0 \<le> max best m" using "10.prems" by simp
      then have "find_max_int_items pf kvs keys (max best m) =
          max_to_int pf (bound_values_items keys kvs) (max best m)"
        using "10.IH"(2) False sub m by simp
      with False sub "10.prems" m show ?thesis
        by (simp add: max_to_int_append max_to_int_shift [of best pf "bound_values keys v"])
    qed
  qed
next
  case (12 pf x xs keys best)
  have sub: "find_max_int pf x keys = max_to_int pf (bound_values keys x) 0"
    using "12.IH"(1) by simp
  show ?case
  proof (cases "max_to_int pf (bound_values keys x) 0")
    case (Inl e)
    with sub "12.prems" show ?thesis
      by (simp add: max_to_int_append max_to_int_shift [of best])
  next
    case m: (Inr m)
    have "0 \<le> max best m" using "12.prems" by simp
    then have "find_max_int_elems pf xs keys (max best m) =
        max_to_int pf (bound_values_elems keys xs) (max best m)"
      using "12.IH"(2) sub m by simp
    with sub "12.prems" m show ?thesis
      by (simp add: max_to_int_append max_to_int_shift [of best pf "bound_values keys x"])
  qed
qed simp_all

subsection \<open>The values the scan meets\<close>

lemma bound_values_items_iff:
  "v \<in> set (bound_values_items keys kvs) \<longleftrightarrow>
     (\<exists>k d. (k, d) \<in> set kvs \<and> ((key_in k keys \<and> v = d) \<or> v \<in> set (bound_values keys d)))"
  by (induction kvs) (auto, blast+)

lemma bound_values_elems_iff:
  "v \<in> set (bound_values_elems keys xs) \<longleftrightarrow> (\<exists>d\<in>set xs. v \<in> set (bound_values keys d))"
  by (induction xs) auto

lemma bound_values_sound:
  "v \<in> set (bound_values keys data) \<Longrightarrow> bound_in keys data v"
  "v \<in> set (bound_values_items keys kvs) \<Longrightarrow> bound_in keys (PDict kvs) v"
  "v \<in> set (bound_values_elems keys xs) \<Longrightarrow> bound_in keys (PList xs) v"
proof (induction keys data and keys kvs and keys xs
    rule: bound_values_bound_values_items_bound_values_elems.induct)
  case (10 keys k d kvs)
  from "10.prems" consider "key_in k keys" "v = d" | "v \<in> set (bound_values keys d)"
    | "v \<in> set (bound_values_items keys kvs)"
    by (auto split: if_splits)
  then show ?case
  proof cases
    case 1
    then show ?thesis by (auto intro: bound_in.item)
  next
    case 2
    then have "bound_in keys d v" by (rule "10.IH"(1))
    then show ?thesis by (auto intro: bound_in.under_item)
  next
    case 3
    then have "bound_in keys (PDict kvs) v" by (rule "10.IH"(2))
    then show ?thesis
      by (cases rule: bound_in.cases) (auto intro: bound_in.item bound_in.under_item)
  qed
next
  case (12 keys x xs)
  from "12.prems" consider "v \<in> set (bound_values keys x)"
    | "v \<in> set (bound_values_elems keys xs)"
    by auto
  then show ?case
  proof cases
    case 1
    then have "bound_in keys x v" by (rule "12.IH"(1))
    then show ?thesis by (auto intro: bound_in.under_elem)
  next
    case 2
    then have "bound_in keys (PList xs) v" by (rule "12.IH"(2))
    then show ?thesis
      by (cases rule: bound_in.cases) (auto intro: bound_in.under_elem)
  qed
qed simp_all

lemma bound_values_complete:
  "bound_in keys data v \<Longrightarrow> v \<in> set (bound_values keys data)"
proof (induction rule: bound_in.induct)
  case (item k v kvs)
  then show ?case by (auto simp: bound_values_items_iff)
next
  case (under_item k d kvs v)
  then show ?case by (auto simp: bound_values_items_iff)
next
  case (under_elem d xs v)
  then show ?case by (auto simp: bound_values_elems_iff)
qed

lemma set_bound_values: "set (bound_values keys data) = {v. bound_in keys data v}"
  using bound_values_sound(1) bound_values_complete by blast

text \<open>
  What the scan computes where it returns. The list \<open>bound_values keys data\<close> holds
  exactly the values bound to a key in \<open>keys\<close> at any nesting depth of \<open>data\<close>; when
  \<open>to_int\<close> returns \<open>ns\<close> on them, the result is the greatest of 0 and \<open>ns\<close>; when
  there is no such value, it is 0; and the scan raises exactly when \<open>to_int\<close> raises
  on one of them.
\<close>

lemma find_max_int_scan_is_max:
  "set (bound_values keys data) = {v. bound_in keys data v}
   \<and> (\<forall>ns. map (\<lambda>v. to_int pf v 0) (bound_values keys data) = map Inr ns \<longrightarrow>
      find_max_int pf data keys = Inr (Max (insert 0 (set ns))))
   \<and> ((\<forall>v. \<not> bound_in keys data v) \<longrightarrow> find_max_int pf data keys = Inr 0)
   \<and> ((\<exists>e. find_max_int pf data keys = Inl e) \<longleftrightarrow>
        (\<exists>v. bound_in keys data v \<and> (\<exists>e. to_int pf v 0 = Inl e)))"
proof (intro conjI allI impI)
  show "set (bound_values keys data) = {v. bound_in keys data v}"
    by (rule set_bound_values)
next
  fix ns
  assume "map (\<lambda>v. to_int pf v 0) (bound_values keys data) = map Inr ns"
  then show "find_max_int pf data keys = Inr (Max (insert 0 (set ns)))"
    by (simp add: find_max_int_scan(1) max_to_int_Max)
next
  assume "\<forall>v. \<not> bound_in keys data v"
  then have "set (bound_values keys data) = {}"
    by (simp add: set_bound_values)
  then show "find_max_int pf data keys = Inr 0"
    by (simp add: find_max_int_scan(1))
next
  have "(\<exists>e. find_max_int pf data keys = Inl e) \<longleftrightarrow>
        (\<exists>v\<in>set (bound_values keys data). \<exists>e. to_int pf v 0 = Inl e)"
    by (simp only: find_max_int_scan(1) max_to_int_raises)
  then show "(\<exists>e. find_max_int pf data keys = Inl e) \<longleftrightarrow>
        (\<exists>v. bound_in keys data v \<and> (\<exists>e. to_int pf v 0 = Inl e))"
    by (auto simp: set_bound_values)
qed

subsection \<open>Where the helpers raise\<close>

lemma float_to_int_raises:
  "(\<exists>e. float_to_int x = Inl e) \<longleftrightarrow> x \<in> {PosInf, NegInf, NaN}"
  by (cases x) auto

lemma to_int_raises:
  "(\<exists>e. to_int pf v d = Inl e) \<longleftrightarrow> v \<in> {PFloat PosInf, PFloat NegInf, PFloat NaN}"
proof (cases v)
  case (PFloat x)
  then show ?thesis using float_to_int_raises [of x] by auto
next
  case (PStr s)
  then show ?thesis by (auto split: option.splits sum.splits)
qed auto

lemma to_int_returns:
  "to_int pf (PBool b) d = Inr (if b then 1 else 0)"
  "to_int pf (PInt n) d = Inr n"
  "to_int pf (PFloat (Finite m e)) d =
     Inr (if 0 \<le> e then m * 2 ^ nat e else sgn m * (\<bar>m\<bar> div 2 ^ nat (- e)))"
  "pf s = Some (Finite m e) \<Longrightarrow> to_int pf (PStr s) d = to_int pf (PFloat (Finite m e)) d"
  "pf s = None \<or> pf s = Some PosInf \<or> pf s = Some NegInf \<or> pf s = Some NaN \<Longrightarrow>
     to_int pf (PStr s) d = Inr d"
  "v \<in> {PNone, POther} \<or> (\<exists>xs. v = PList xs) \<or> (\<exists>kvs. v = PDict kvs) \<Longrightarrow>
     to_int pf v d = Inr d"
  by auto

lemma find_max_int_raises_iff:
  "(\<exists>e. find_max_int pf data keys = Inl e) \<longleftrightarrow>
     (\<exists>v. bound_in keys data v \<and> v \<in> {PFloat PosInf, PFloat NegInf, PFloat NaN})"
proof -
  have "(\<exists>e. find_max_int pf data keys = Inl e) \<longleftrightarrow>
        (\<exists>v\<in>set (bound_values keys data). \<exists>e. to_int pf v 0 = Inl e)"
    by (simp only: find_max_int_scan(1) max_to_int_raises)
  then show ?thesis
    by (simp only: to_int_raises set_bound_values) blast
qed

text \<open>
  C9. \<open>to_int\<close> is not total: a float infinity raises OverflowError and a float NaN
  raises ValueError, because \<open>int(value)\<close> of the float branch stands outside the
  \<open>try\<close> that guards the same conversion in the string branch.
\<close>

theorem to_int_nonfinite_float_raises:
  "to_int pf (PFloat PosInf) d = Inl OverflowError
   \<and> to_int pf (PFloat NegInf) d = Inl OverflowError
   \<and> to_int pf (PFloat NaN) d = Inl ValueError"
  by simp

text \<open>
  C3. \<open>find_max_int\<close> raises on a finite structure: scanning
  \<^verbatim>\<open>{"viewer_count": float("inf")}\<close> for the viewer keys ends in the OverflowError
  of \<open>to_int\<close>.
\<close>

theorem find_max_int_overflowing_room_info_raises:
  "find_max_int pf overflowing_room_info viewer_keys = Inl OverflowError"
  by (simp add: overflowing_room_info_def viewer_keys_def lit_def)

text \<open>
  C1. \<open>find_max_int\<close> does not return a maximum on every structure. On
  \<^verbatim>\<open>{"user_count": 40, "viewer_count": float("nan")}\<close> the scan has found 40 when
  \<open>to_int\<close> raises ValueError on the second value, and the exception is all that
  comes out; on the same dictionary without that item the scan returns 40.
\<close>

theorem find_max_int_nan_room_info_raises:
  "find_max_int pf nan_room_info viewer_keys = Inl ValueError
   \<and> find_max_int pf counted_room_info viewer_keys = Inr 40"
  by (simp add: nan_room_info_def counted_room_info_def viewer_keys_def lit_def)

section \<open>Properties of the JSON lines\<close>














subsection \<open>The shape of the records of a stream\<close>







subsection \<open>The rows a run collects\<close>




subsection \<open>The shape of the records printed outside stream mode\<close>






subsection \<open>The output of a stream\<close>






section \<open>Properties of the capture state\<close>


lemma handle_frame:
  assumes "handle cfg pf now ev st = Inr (st', out)"
  shows "samples st' = samples st" and "warnings st' = warnings st"
    and "current_likes st \<le> current_likes st'"
    and "current_enters st \<le> current_enters st'"
  using assms
  by (cases ev; auto simp: on_connect_def on_disconnect_def on_room_user_seq_def on_like_def
      on_comment_def on_gift_def Let_def split: sum.splits if_splits)+

lemma apply_room_info_frame:
  "samples (fst (apply_room_info pf ri cid st)) = samples st"
  "warnings (fst (apply_room_info pf ri cid st)) = warnings st"
  "current_likes st \<le> current_likes (fst (apply_room_info pf ri cid st))"
  "current_enters st \<le> current_enters (fst (apply_room_info pf ri cid st))"
  "current_viewers st \<le> current_viewers (fst (apply_room_info pf ri cid st))"
  by (auto simp: apply_room_info_def Let_def split: sum.splits)

lemma add_sample_frame:
  "samples (snd (add_sample now st)) = samples st @ [fst (add_sample now st)]"
  "current_likes (snd (add_sample now st)) = current_likes st"
  "current_enters (snd (add_sample now st)) = current_enters st"
  "current_viewers (snd (add_sample now st)) = current_viewers st"
  "warnings (snd (add_sample now st)) = warnings st"
  by (simp_all add: add_sample_def Let_def)

lemma step_state_mono:
  "current_likes st \<le> current_likes (step_state cfg pf s st)"
  "current_enters st \<le> current_enters (step_state cfg pf s st)"
proof -
  obtain now k where s: "s = (now, k)" by (cases s)
  show "current_likes st \<le> current_likes (step_state cfg pf s st)"
    unfolding s
    by (cases k) (auto simp: precheck_not_live_def mark_started_def add_sample_frame
        apply_room_info_frame dest: handle_frame(3) split: sum.splits)
  show "current_enters st \<le> current_enters (step_state cfg pf s st)"
    unfolding s
    by (cases k) (auto simp: precheck_not_live_def mark_started_def add_sample_frame
        apply_room_info_frame dest: handle_frame(4) split: sum.splits)
qed

lemma run_mono:
  "current_likes st \<le> current_likes (run cfg pf steps st)"
  "current_enters st \<le> current_enters (run cfg pf steps st)"
proof (induction steps arbitrary: st)
  case Nil
  {
    case 1 show ?case by simp
  next
    case 2 show ?case by simp
  }
next
  case (Cons s steps)
  {
    case 1
    show ?case using Cons(1) [of "step_state cfg pf s st"] step_state_mono(1) [of st cfg pf s]
      by simp
  next
    case 2
    show ?case using Cons(2) [of "step_state cfg pf s st"] step_state_mono(2) [of st cfg pf s]
      by simp
  }
qed

lemma nonneg_snapshot: "nonneg_counts (snapshot now st)"
  by (simp add: nonneg_counts_def counts_def snapshot_def lit_def)

lemma nonneg_sample: "nonneg_counts (fst (add_sample now st))"
  by (simp add: nonneg_counts_def counts_def add_sample_def lit_def Let_def)

lemma step_state_samples:
  "set (samples (step_state cfg pf s st)) \<subseteq> set (samples st) \<union> {d. nonneg_counts d}"
proof -
  obtain now k where s: "s = (now, k)" by (cases s)
  show ?thesis
  proof (cases k)
    case (Handle ev)
    then show ?thesis using s by (auto split: sum.splits dest: handle_frame(1))
  next
    case AddSample
    show ?thesis using s AddSample nonneg_sample [of now st] by (auto simp: add_sample_frame)
  qed (auto simp: s precheck_not_live_def mark_started_def apply_room_info_frame)
qed

lemma run_samples:
  "set (samples (run cfg pf steps st)) \<subseteq> set (samples st) \<union> {d. nonneg_counts d}"
proof (induction steps arbitrary: st)
  case Nil
  then show ?case by simp
next
  case (Cons s steps)
  show ?case
    using Cons [of "step_state cfg pf s st"] step_state_samples [of cfg pf s st] by auto
qed

lemma quiet_viewers:
  "reports_viewers pf ev n \<Longrightarrow> n \<le> 0 \<Longrightarrow>
   current_viewers (step_state cfg pf (now, Handle ev) st) = current_viewers st"
  by (cases ev) (auto simp: on_room_user_seq_def Let_def split: sum.splits)

text \<open>
  C7. Over every run of the bridge, \<open>current_likes\<close> and \<open>current_enters\<close> never
  decrease; an event that reports 0 viewers leaves \<open>current_viewers\<close> as it was, and
  the room information never lowers it.
\<close>

theorem counters_never_decrease:
  "current_likes st \<le> current_likes (run cfg pf steps st)
   \<and> current_enters st \<le> current_enters (run cfg pf steps st)
   \<and> (reports_viewers pf ev 0 \<longrightarrow>
        current_viewers (step_state cfg pf (now, Handle ev) st) = current_viewers st)
   \<and> current_viewers st \<le> current_viewers (step_state cfg pf (now, ApplyRoomInfo info cid) st)"
  using run_mono [of st cfg pf steps] quiet_viewers [of pf ev 0 cfg now st]
    apply_room_info_frame(5) [of st pf info cid]
  by simp

lemma sample_run_counters:
  "current_viewers (run sample_config sample_float (take 2 sample_steps) (init_state (lit ''bob''))) = 7"
  "current_likes (run sample_config sample_float sample_steps (init_state (lit ''bob''))) = 12"
  "current_enters (run sample_config sample_float sample_steps (init_state (lit ''bob''))) = 30"
  by (simp_all add: sample_steps_def quiet_event_def init_state_def mark_started_def
      on_room_user_seq_def on_like_def add_sample_def Let_def)

theorem counters_never_decrease_witness:
  "current_likes (run sample_config sample_float sample_steps (init_state (lit ''bob''))) = 12
   \<and> current_likes (init_state (lit ''bob'')) \<le> 12
   \<and> current_enters (run sample_config sample_float sample_steps (init_state (lit ''bob''))) = 30
   \<and> current_enters (init_state (lit ''bob'')) \<le> 30
   \<and> reports_viewers sample_float quiet_event 0
   \<and> current_viewers (run sample_config sample_float (take 2 sample_steps) (init_state (lit ''bob''))) = 7
   \<and> current_viewers (step_state sample_config sample_float (lit ''t2'', Handle quiet_event)
        (run sample_config sample_float (take 2 sample_steps) (init_state (lit ''bob'')))) = 7"
proof -
  let ?st = "run sample_config sample_float (take 2 sample_steps) (init_state (lit ''bob''))"
  have h: "reports_viewers sample_float quiet_event 0"
    by (simp add: quiet_event_def)
  note t = counters_never_decrease [of "init_state (lit ''bob'')" sample_config sample_float
      sample_steps quiet_event "lit ''t2''" PNone None]
  note u = counters_never_decrease [of ?st sample_config sample_float
      "[]" quiet_event "lit ''t2''" PNone None]
  from u h have "current_viewers (step_state sample_config sample_float (lit ''t2'', Handle quiet_event) ?st)
      = current_viewers ?st"
    by blast
  moreover from t have "current_likes (init_state (lit ''bob'')) \<le> 12"
    "current_enters (init_state (lit ''bob'')) \<le> 30"
    by (simp_all add: sample_run_counters)
  ultimately show ?thesis using h by (simp add: sample_run_counters)
qed

text \<open>
  C8. In every state, whatever its counters, the snapshot and the sample have
  non-negative \<open>viewerCount\<close>, \<open>likeCount\<close> and \<open>enterCount\<close>; and every sample stored
  by a run has them, whatever values the events carry.
\<close>

theorem snapshots_and_samples_nonneg:
  "nonneg_counts (snapshot now st)
   \<and> nonneg_counts (fst (add_sample now st))
   \<and> ((\<forall>d\<in>set (samples st). nonneg_counts d) \<longrightarrow>
        (\<forall>d\<in>set (samples (run cfg pf steps st)). nonneg_counts d))"
  using run_samples [of cfg pf steps st] nonneg_snapshot [of now st] nonneg_sample [of now st]
  by auto

lemma negative_run_samples:
  "samples (run sample_config sample_float sample_steps negative_state)
     = [[(lit ''capturedAt'', JStr (lit ''t4'')), (lit ''viewerCount'', JInt 7),
         (lit ''likeCount'', JInt 12), (lit ''enterCount'', JInt 30)]]"
  by (simp add: sample_steps_def quiet_event_def negative_state_def init_state_def
      mark_started_def on_room_user_seq_def on_like_def add_sample_def Let_def)

theorem snapshots_and_samples_nonneg_witness:
  "counts (snapshot (lit ''t0'') negative_state) = Some (0, 0, 0)
   \<and> counts (fst (add_sample (lit ''t0'') negative_state)) = Some (0, 0, 0)
   \<and> samples negative_state = []
   \<and> map counts (samples (run sample_config sample_float sample_steps negative_state))
       = [Some (7, 12, 30)]
   \<and> list_all nonneg_counts (samples (run sample_config sample_float sample_steps negative_state))"
proof -
  note t = snapshots_and_samples_nonneg [of "lit ''t0''" negative_state sample_config
      sample_float sample_steps]
  have e: "samples negative_state = []"
    by (simp add: negative_state_def init_state_def)
  from t e have "\<forall>d\<in>set (samples (run sample_config sample_float sample_steps negative_state)).
      nonneg_counts d"
    by simp
  then have "list_all nonneg_counts (samples (run sample_config sample_float sample_steps negative_state))"
    by (simp add: list_all_iff)
  moreover have "counts (snapshot (lit ''t0'') negative_state) = Some (0, 0, 0)"
    by (simp add: counts_def snapshot_def negative_state_def init_state_def lit_def)
  moreover have "counts (fst (add_sample (lit ''t0'') negative_state)) = Some (0, 0, 0)"
    by (simp add: counts_def add_sample_def negative_state_def init_state_def lit_def Let_def)
  moreover have "map counts (samples (run sample_config sample_float sample_steps negative_state))
       = [Some (7, 12, 30)]"
    by (simp add: negative_run_samples) (simp add: counts_def lit_def)
  ultimately show ?thesis using e by simp
qed

section \<open>Properties of Pianothon\<close>

lemma handler_steps_total:
  "totalcoins (fst (print_line text w)) = totalcoins (fst w)"
  "totalcoins (fst (giftreceived coins w)) = totalcoins (fst w) + coins"
  "totalcoins (fst (thank nickname w)) = totalcoins (fst w)"
  by (simp_all add: print_line_def giftreceived_def thank_def Let_def)

lemma pianothon_on_gift_total:
  "totalcoins (fst (pianothon_on_gift g w)) = totalcoins (fst w) + gift_coins g"
  by (simp add: pianothon_on_gift_def gift_coins_def handler_steps_total Let_def)

lemma pianothon_gifts_total:
  "totalcoins (fst (pianothon_gifts gs w)) = totalcoins (fst w) + sum_list (map gift_coins gs)"
  by (induction gs arbitrary: w) (simp_all add: pianothon_on_gift_total)

text \<open>
  C2. A gift event adds to the coin total its diamond count times its repeat count
  when the gift is streakable and the streak has ended, its diamond count when the
  gift is not streakable, and nothing while the streak is in progress; over a
  sequence of gift events the total grows by the sum of these amounts.
\<close>

theorem gift_adds_its_coins:
  "(g_streakable g \<and> \<not> g_streaking g \<longrightarrow>
      totalcoins (fst (pianothon_on_gift g w)) = totalcoins (fst w) + g_diamond_count g * g_count g)
   \<and> (\<not> g_streakable g \<longrightarrow>
      totalcoins (fst (pianothon_on_gift g w)) = totalcoins (fst w) + g_diamond_count g)
   \<and> (g_streakable g \<and> g_streaking g \<longrightarrow>
      totalcoins (fst (pianothon_on_gift g w)) = totalcoins (fst w))
   \<and> totalcoins (fst (pianothon_gifts gs w)) = totalcoins (fst w) + sum_list (map gift_coins gs)"
  by (simp add: pianothon_on_gift_total pianothon_gifts_total gift_coins_def)

theorem gift_adds_its_coins_witness:
  "g_streakable finished_streak \<and> \<not> g_streaking finished_streak
   \<and> totalcoins (fst (pianothon_on_gift finished_streak (initial_shared, []))) = 10
   \<and> \<not> g_streakable single_gift
   \<and> totalcoins (fst (pianothon_on_gift single_gift (initial_shared, []))) = 7
   \<and> g_streakable running_streak \<and> g_streaking running_streak
   \<and> totalcoins (fst (pianothon_on_gift running_streak (initial_shared, []))) = 0
   \<and> totalcoins (fst (pianothon_gifts [running_streak, finished_streak, single_gift]
         (initial_shared, []))) = 17"
proof -
  have a: "g_streakable finished_streak \<and> \<not> g_streaking finished_streak"
    and b: "\<not> g_streakable single_gift"
    and c: "g_streakable running_streak \<and> g_streaking running_streak"
    by (simp_all add: finished_streak_def single_gift_def running_streak_def)
  note t = gift_adds_its_coins [of finished_streak "(initial_shared, [])"
      "[running_streak, finished_streak, single_gift]"]
  note u = gift_adds_its_coins [of single_gift "(initial_shared, [])" "[]"]
  note v = gift_adds_its_coins [of running_streak "(initial_shared, [])" "[]"]
  from t a have "totalcoins (fst (pianothon_on_gift finished_streak (initial_shared, []))) = 10"
    by (simp add: finished_streak_def initial_shared_def)
  moreover from u b have "totalcoins (fst (pianothon_on_gift single_gift (initial_shared, []))) = 7"
    by (simp add: single_gift_def initial_shared_def)
  moreover from v c have "totalcoins (fst (pianothon_on_gift running_streak (initial_shared, []))) = 0"
    by (simp add: initial_shared_def)
  moreover from t have "totalcoins (fst (pianothon_gifts [running_streak, finished_streak, single_gift]
         (initial_shared, []))) = 17"
    by (simp add: gift_coins_def finished_streak_def single_gift_def running_streak_def
        initial_shared_def)
  ultimately show ?thesis using a b c by simp
qed


text \<open>
  What the two processes do with the two manager values: the rendering pass leaves
  them as they are, a finished streak worth a thank-you sets both, and the pass
  shows both.
\<close>

lemma handler_and_render_on_shared_values:
  "fst (mainloop_pass millis sh r) = sh
   \<and> (g_streakable g \<and> \<not> g_streaking g \<and> thankvalue \<le> g_diamond_count g * g_count g \<longrightarrow>
        fst (pianothon_on_gift g (sh, out))
          = \<lparr>totalcoins = totalcoins sh + g_diamond_count g * g_count g,
             thankstr = lit ''Thanks to '' @ g_nickname g\<rparr>)
   \<and> (millis mod 4000 < 40 \<longrightarrow>
        activethank (fst (snd (mainloop_pass millis sh r))) = thankstr sh)
   \<and> total_text (snd (snd (snd (mainloop_pass millis sh r)))) = int_repr (totalcoins sh)"
  by (simp add: pianothon_on_gift_def print_line_def thank_def giftreceived_def Let_def mainloop_pass_def
      split: prod.splits)

subsection \<open>Which cells the processes write and read\<close>















end
